theory Spec2Isabelle
  imports Complex_Main
begin

section \<open>Characters and strings of the packing-slip parser\<close>

text \<open>
  The program of \<^verbatim>\<open>mtg_packing_slip_organizer.py\<close> works on Python strings. A string is
  modelled as a \<^typ>\<open>string\<close>, one \<^typ>\<open>char\<close> per code point; the code points covered are
  those below 256. The character classes below are the ones Python's \<^verbatim>\<open>str\<close> methods and
  the \<^verbatim>\<open>re\<close> module use on that range.
\<close>

definition code :: "char \<Rightarrow> nat" where
  "code c = of_char c"

text \<open>\<^verbatim>\<open>\d\<close> of the \<^verbatim>\<open>re\<close> module.\<close>

definition is_digit :: "char \<Rightarrow> bool" where
  "is_digit c = (48 \<le> code c \<and> code c \<le> 57)"

text \<open>\<^verbatim>\<open>\s\<close> of the \<^verbatim>\<open>re\<close> module and the characters \<^verbatim>\<open>str.strip()\<close> removes.\<close>

definition is_space :: "char \<Rightarrow> bool" where
  "is_space c = ((9 \<le> code c \<and> code c \<le> 13) \<or> (28 \<le> code c \<and> code c \<le> 32)
     \<or> code c = 133 \<or> code c = 160)"

text \<open>\<^verbatim>\<open>str.strip()\<close>, and \<^verbatim>\<open>str.startswith\<close>.\<close>

definition rstrip_space :: "string \<Rightarrow> string" where
  "rstrip_space s = rev (dropWhile is_space (rev s))"

definition strip :: "string \<Rightarrow> string" where
  "strip s = rstrip_space (dropWhile is_space s)"

definition startswith :: "string \<Rightarrow> string \<Rightarrow> bool" where
  "startswith s p = (take (length p) s = p)"

section \<open>Line classification and the continuation merger\<close>

text \<open>
  \<^verbatim>\<open>re.match(r'^\d+\s+Magic-', line)\<close> and \<^verbatim>\<open>re.match(r'^\d+\s+Total\s+\$', line)\<close>.
  Digits, whitespace and the letter that follows are disjoint classes, so the greedy runs
  are the only way to match.
\<close>

definition after_quantity :: "string \<Rightarrow> string option" where
  "after_quantity s =
     (let r = dropWhile is_digit s in
      if takeWhile is_digit s = [] \<or> takeWhile is_space r = [] then None
      else Some (dropWhile is_space r))"

definition is_entry_start :: "string \<Rightarrow> bool" where
  "is_entry_start s =
     (case after_quantity s of None \<Rightarrow> False | Some r \<Rightarrow> startswith r ''Magic-'')"

definition is_total_line :: "string \<Rightarrow> bool" where
  "is_total_line s =
     (case after_quantity s of
        None \<Rightarrow> False
      | Some r \<Rightarrow> startswith r ''Total'' \<and> takeWhile is_space (drop 5 r) \<noteq> []
                    \<and> startswith (dropWhile is_space (drop 5 r)) ''$'')"

definition is_page_noise :: "string \<Rightarrow> bool" where
  "is_page_noise s =
     (startswith s ''Quantity Description'' \<or> startswith s ''OrderNumber:'' \<or> is_total_line s)"

text \<open>
  The loop of \<^verbatim>\<open>merge_continuation_lines\<close> carries the list \<^verbatim>\<open>merged\<close> and the open entry
  \<^verbatim>\<open>current\<close>; the empty string means that no entry is open.
\<close>

definition flush :: "string list \<times> string \<Rightarrow> string list" where
  "flush st = (if snd st \<noteq> [] then fst st @ [snd st] else fst st)"

definition merge_step :: "string list \<times> string \<Rightarrow> string \<Rightarrow> string list \<times> string" where
  "merge_step st raw =
     (let line = strip raw in
      if line = [] then st
      else if startswith line ''Quantity Description'' \<or> startswith line ''OrderNumber:''
        then (flush st, [])
      else if is_total_line line then (flush st, [])
      else if is_entry_start line then (flush st, line)
      else if snd st \<noteq> [] then (fst st, snd st @ line)
      else st)"

definition merge_continuation_lines :: "string list \<Rightarrow> string list" where
  "merge_continuation_lines lines = flush (foldl merge_step ([], []) lines)"

text \<open>
  The merger as the specification words it, on the trimmed lines: every entry-start line
  gives one entry, whose text is the start line followed by the lines after it up to the
  next entry-start line, noise line or end of input.
\<close>

definition is_continuation :: "string \<Rightarrow> bool" where
  "is_continuation s = (\<not> is_entry_start s \<and> \<not> is_page_noise s)"

definition entry_text :: "string \<Rightarrow> string list \<Rightarrow> string" where
  "entry_text l ls = l @ concat (takeWhile is_continuation ls)"

fun spec_entries :: "string list \<Rightarrow> string list" where
  "spec_entries [] = []"
| "spec_entries (l # ls) =
     (if is_entry_start l then entry_text l ls # spec_entries ls else spec_entries ls)"

section \<open>The group/name splitter\<close>

text \<open>
  \<^verbatim>\<open>str.isupper()\<close> and \<^verbatim>\<open>str.islower()\<close> on one character: the cased characters of the
  range are the ASCII letters and the letters of the upper half.
\<close>

definition is_upper :: "char \<Rightarrow> bool" where
  "is_upper c = ((65 \<le> code c \<and> code c \<le> 90) \<or> (192 \<le> code c \<and> code c \<le> 214)
     \<or> (216 \<le> code c \<and> code c \<le> 222))"

definition is_lower :: "char \<Rightarrow> bool" where
  "is_lower c = ((97 \<le> code c \<and> code c \<le> 122) \<or> code c = 170 \<or> code c = 181
     \<or> code c = 186 \<or> (223 \<le> code c \<and> code c \<le> 246) \<or> (248 \<le> code c \<and> code c \<le> 255))"

definition KNOWN_SET_PREFIXES :: "string list" where
  "KNOWN_SET_PREFIXES =
    [''LorwynEclipsed'',
     ''Avatar:TheLastAirbender:Eternal-Legal'',
     ''Avatar:TheLastAirbender'',
     ''MarvelUniverseEternal-Legal'',
     ''Marvel'' @ [CHR 39] @ ''sSpider-Man'',
     ''EdgeofEternities'',
     ''Commander:EdgeofEternities'',
     ''FINALFANTASY'',
     ''Commander:FINALFANTASY'',
     ''Tarkir:Dragonstorm'',
     ''Commander:Tarkir:Dragonstorm'',
     ''Aetherdrift'',
     ''Phyrexia:AllWillBeOne'',
     ''WaroftheSpark'',
     ''Foundations'',
     ''CommanderLegends:BattleforBaldur'' @ [CHR 39] @ ''sGate'',
     ''Commander:OutlawsofThunderJunction'',
     ''Commander:StreetsofNewCapenna'',
     ''Commander2016'',
     ''ModernHorizons3'',
     ''RavnicaRemastered'',
     ''TimeSpiral:Remastered'',
     ''TheListReprints'',
     ''MysteryBooster2'',
     ''SecretLairDropSeries'',
     ''SecretLairCountdownKit'',
     ''Urza'' @ [CHR 39] @ ''sLegacy'',
     ''FromtheVault:Lore'',
     ''PromoPack:OutlawsofThunderJunction'',
     ''PromoPack:MarchoftheMachine'',
     ''PromoPack:Kamigawa:NeonDynasty'',
     ''CommanderMasters'',
     ''Innistrad:MidnightHunt'',
     ''OutlawsofThunderJunction'',
     ''MurdersatKarlovManor'']"

text \<open>
  \<^verbatim>\<open>sorted(KNOWN_SET_PREFIXES, key=len, reverse=True)\<close>: a stable sort, longest first,
  prefixes of equal length in the order of the table.
\<close>

definition sorted_prefixes :: "string list" where
  "sorted_prefixes = rev (sort_key length (rev KNOWN_SET_PREFIXES))"

text \<open>The loop over the sorted prefixes: the first prefix followed by a hyphen wins.\<close>

fun match_prefix :: "string list \<Rightarrow> string \<Rightarrow> (string \<times> string) option" where
  "match_prefix [] description = None"
| "match_prefix (prefix # rest) description =
     (if startswith description (prefix @ ''-'')
      then Some (prefix, drop (length prefix + 1) description)
      else match_prefix rest description)"

text \<open>
  \<^verbatim>\<open>re.search\<close> for a pattern whose match at a position depends on the text from that
  position on only: the result is the start of the leftmost match.
\<close>

fun search :: "(string \<Rightarrow> bool) \<Rightarrow> string \<Rightarrow> nat option" where
  "search P [] = (if P [] then Some 0 else None)"
| "search P (c # cs) = (if P (c # cs) then Some 0 else map_option Suc (search P cs))"

text \<open>The pattern \<^verbatim>\<open>-#\d+\<close> at the head of a text.\<close>

definition at_anchor :: "string \<Rightarrow> bool" where
  "at_anchor s = (startswith s ''-#'' \<and> takeWhile is_digit (drop 2 s) \<noteq> [])"

text \<open>\<^verbatim>\<open>str.split(sep)\<close> for a separator of one character, and \<^verbatim>\<open>sep.join(parts)\<close>.\<close>

fun split_on :: "char \<Rightarrow> string \<Rightarrow> string list" where
  "split_on sep [] = [ [] ]"
| "split_on sep (c # cs) =
     (if c = sep then [] # split_on sep cs
      else (c # hd (split_on sep cs)) # tl (split_on sep cs))"

fun join :: "string \<Rightarrow> string list \<Rightarrow> string" where
  "join sep [] = []"
| "join sep [p] = p"
| "join sep (p # ps) = p @ sep @ join sep ps"

text \<open>
  The walk over the parts before the anchor. \<^verbatim>\<open>starts_card j part\<close> is the test of the
  source at index \<^verbatim>\<open>j\<close>: the index is not the first, the part is not empty, starts with
  an uppercase letter and does not start with one of the set words. \<^verbatim>\<open>walk\<close> returns
  \<^verbatim>\<open>(set_parts, card_parts)\<close>.
\<close>

definition set_words :: "string list" where
  "set_words = [''Commander'', ''Eternal'', ''Legal'', ''Remastered'', ''Promo'']"

definition looks_like_card :: "string \<Rightarrow> bool" where
  "looks_like_card part =
     (part \<noteq> [] \<and> is_upper (hd part) \<and> \<not> list_ex (startswith part) set_words)"

definition starts_card :: "nat \<Rightarrow> string \<Rightarrow> bool" where
  "starts_card j part = (j > 0 \<and> looks_like_card part)"

fun walk :: "nat \<Rightarrow> bool \<Rightarrow> string list \<Rightarrow> string list \<times> string list" where
  "walk j found_card [] = ([], [])"
| "walk j found_card (part # parts) =
     (if \<not> found_card then
        (if starts_card j part
         then (fst (walk (j + 1) True parts), part # snd (walk (j + 1) True parts))
         else (part # fst (walk (j + 1) False parts), snd (walk (j + 1) False parts)))
      else (fst (walk (j + 1) True parts), part # snd (walk (j + 1) True parts)))"

definition anchor_split :: "string \<Rightarrow> (string \<times> string) option" where
  "anchor_split description =
     (case search at_anchor description of
        None \<Rightarrow> None
      | Some start \<Rightarrow>
          (let before_number = take start description;
               parts = split_on CHR ''-'' before_number
           in if length parts \<ge> 2 then
                (let set_parts = fst (walk 0 False parts);
                     card_parts = snd (walk 0 False parts)
                 in if set_parts \<noteq> [] \<and> card_parts \<noteq> []
                    then Some (join ''-'' set_parts,
                               join ''-'' card_parts @ drop start description)
                    else None)
              else None))"

text \<open>\<^verbatim>\<open>str.find\<close> for one character; \<^verbatim>\<open>None\<close> stands for the result \<^verbatim>\<open>-1\<close>.\<close>

fun find_char :: "char \<Rightarrow> string \<Rightarrow> nat option" where
  "find_char x [] = None"
| "find_char x (c # cs) = (if c = x then Some 0 else map_option Suc (find_char x cs))"

definition first_hyphen_split :: "string \<Rightarrow> string \<times> string" where
  "first_hyphen_split description =
     (case find_char CHR ''-'' description of
        None \<Rightarrow> (''Unknown'', description)
      | Some first_hyphen \<Rightarrow>
          if first_hyphen > 0
          then (take first_hyphen description, drop (first_hyphen + 1) description)
          else (''Unknown'', description))"

definition extract_set_and_card :: "string \<Rightarrow> string \<times> string" where
  "extract_set_and_card description =
     (case match_prefix sorted_prefixes description of
        Some r \<Rightarrow> r
      | None \<Rightarrow>
          (case anchor_split description of
             Some r \<Rightarrow> r
           | None \<Rightarrow> first_hyphen_split description))"

text \<open>
  The conditions of the specification on a splitter input: the text holds an identifier
  anchor, and the text starts with a known group followed by a hyphen.
\<close>

definition has_anchor :: "string \<Rightarrow> bool" where
  "has_anchor s = (\<exists>pre d post. is_digit d \<and> s = pre @ ''-#'' @ d # post)"

definition has_known_prefix :: "string \<Rightarrow> bool" where
  "has_known_prefix s = (\<exists>p r. p \<in> set KNOWN_SET_PREFIXES \<and> s = p @ ''-'' @ r)"

text \<open>The split at the first hyphen, in words: the text before it and the text after it.\<close>

definition before_hyphen :: "string \<Rightarrow> string" where
  "before_hyphen s = takeWhile (\<lambda>c. c \<noteq> CHR ''-'') s"

definition after_hyphen :: "string \<Rightarrow> string" where
  "after_hyphen s = drop 1 (dropWhile (\<lambda>c. c \<noteq> CHR ''-'') s)"

definition naive_result :: "string \<Rightarrow> string \<times> string" where
  "naive_result s =
     (if CHR ''-'' \<in> set s \<and> before_hyphen s \<noteq> [] then (before_hyphen s, after_hyphen s)
      else (''Unknown'', s))"

section \<open>The name normalizer\<close>

text \<open>
  \<^verbatim>\<open>add_spaces_to_card_name\<close> is a loop over the characters followed by a chain of
  \<^verbatim>\<open>re.sub\<close> calls. The loop looks back at \<^verbatim>\<open>name[i-1]\<close> and \<^verbatim>\<open>name[i-2]\<close>; the walk below
  carries them as \<^verbatim>\<open>prev_char\<close> and \<^verbatim>\<open>before_prev\<close>, which are \<^verbatim>\<open>None\<close> while
  \<^verbatim>\<open>i < 1\<close> and \<^verbatim>\<open>i < 2\<close>.
\<close>

definition camel_gap :: "char option \<Rightarrow> char option \<Rightarrow> char \<Rightarrow> bool" where
  "camel_gap before_prev prev_char c =
     (case prev_char of
        None \<Rightarrow> False
      | Some p \<Rightarrow> is_lower p \<and> is_upper c \<and> p \<noteq> CHR 39
                    \<and> (case before_prev of None \<Rightarrow> True | Some q \<Rightarrow> q \<noteq> CHR ''-''))"

fun camel_walk :: "char option \<Rightarrow> char option \<Rightarrow> string \<Rightarrow> string" where
  "camel_walk before_prev prev_char [] = []"
| "camel_walk before_prev prev_char (c # cs) =
     (if camel_gap before_prev prev_char c
      then CHR '' '' # c # camel_walk prev_char (Some c) cs
      else c # camel_walk prev_char (Some c) cs)"

text \<open>\<^verbatim>\<open>re.sub(r',([^\s])', r', \1', name)\<close> and \<^verbatim>\<open>re.sub(r':([A-Za-z])', r': \1', name)\<close>.\<close>

definition is_ascii_letter :: "char \<Rightarrow> bool" where
  "is_ascii_letter c = ((65 \<le> code c \<and> code c \<le> 90) \<or> (97 \<le> code c \<and> code c \<le> 122))"

fun comma_pass :: "string \<Rightarrow> string" where
  "comma_pass (c # d # r) =
     (if c = CHR '','' \<and> \<not> is_space d then CHR '','' # CHR '' '' # d # comma_pass r
      else c # comma_pass (d # r))"
| "comma_pass s = s"

fun colon_pass :: "string \<Rightarrow> string" where
  "colon_pass (c # d # r) =
     (if c = CHR '':'' \<and> is_ascii_letter d then CHR '':'' # CHR '' '' # d # colon_pass r
      else c # colon_pass (d # r))"
| "colon_pass s = s"

text \<open>
  The general shape of \<^verbatim>\<open>re.sub\<close>: a matcher tells, from the character before the
  position and the text from the position on, whether the pattern matches there, and then
  gives the replacement and the length of the match. The scan goes on after the match;
  where nothing matches, the character is kept.
\<close>

function sub_ctx :: "(char option \<Rightarrow> string \<Rightarrow> (string \<times> nat) option) \<Rightarrow> char option \<Rightarrow> string \<Rightarrow> string"
  where
  "sub_ctx m prev [] = []"
| "sub_ctx m prev (c # cs) =
     (case m prev (c # cs) of
        None \<Rightarrow> c # sub_ctx m (Some c) cs
      | Some (repl, n) \<Rightarrow> repl @ sub_ctx m (Some ((c # cs) ! (n - 1))) (drop (n - 1) cs))"
  by pat_completeness auto
termination
  by (relation "measure (\<lambda>(m, prev, s). length s)") auto

text \<open>
  Letters under \<^verbatim>\<open>re.IGNORECASE\<close>: on the code points below 256 a letter of a pattern
  matches itself in either case.
\<close>

definition ascii_lower :: "char \<Rightarrow> char" where
  "ascii_lower c = (if 65 \<le> code c \<and> code c \<le> 90 then char_of (code c + 32) else c)"

definition ieq :: "string \<Rightarrow> string \<Rightarrow> bool" where
  "ieq s w = (map ascii_lower s = w)"

definition of_clusters :: "string list" where
  "of_clusters =
    [''ion'', ''ter'', ''ler'', ''ant'', ''ent'', ''int'', ''ard'', ''ack'', ''ock'', ''uck'',
     ''ime'', ''ame'', ''ome'', ''ple'', ''tle'', ''nce'', ''ise'', ''ose'', ''use'', ''ine'',
     ''one'', ''ure'', ''ire'', ''are'', ''ore'', ''ide'', ''ade'', ''ude'', ''ive'', ''ave'',
     ''ove'', ''all'', ''ell'', ''ill'', ''ull'', ''ath'', ''eth'', ''ith'', ''oth'', ''uth'',
     ''lic'', ''ric'', ''sic'', ''tic'', ''nic'', ''pic'']"

definition to_clusters :: "string list" where
  "to_clusters = [''ack'', ''ome'', ''urn'']"

text \<open>A cluster of three letters followed by a word of two: \<^verbatim>\<open>(ion|ter|...)of\<close>, \<^verbatim>\<open>(ack|ome|urn)to\<close>.\<close>

definition cluster_match :: "string list \<Rightarrow> string \<Rightarrow> string \<Rightarrow> (string \<times> nat) option" where
  "cluster_match clusters w s =
     (if list_ex (ieq (take 3 s)) clusters \<and> ieq (take 2 (drop 3 s)) w
      then Some (take 3 s @ CHR '' '' # w, 5) else None)"

text \<open>\<^verbatim>\<open>([^o])sof\<close> with the replacement \<^verbatim>\<open>\1s of\<close>.\<close>

definition sof_match :: "string \<Rightarrow> (string \<times> nat) option" where
  "sof_match s =
     (case s of
        [] \<Rightarrow> None
      | c # r \<Rightarrow> if ascii_lower c \<noteq> CHR ''o'' \<and> ieq (take 3 r) ''sof''
                 then Some (c # ''s of'', 4) else None)"

text \<open>
  \<^verbatim>\<open>\w\<close> and \<^verbatim>\<open>\b\<close>: the word characters are the alphanumeric ones and the underscore. A
  pattern that starts with a letter has a boundary before it when no word character
  precedes; one that ends with a letter has a boundary after it when none follows.
\<close>

definition is_word :: "char \<Rightarrow> bool" where
  "is_word c = ((48 \<le> code c \<and> code c \<le> 57) \<or> (65 \<le> code c \<and> code c \<le> 90) \<or> code c = 95
     \<or> (97 \<le> code c \<and> code c \<le> 122) \<or> code c = 170 \<or> code c = 178 \<or> code c = 179
     \<or> code c = 181 \<or> code c = 185 \<or> code c = 186 \<or> (188 \<le> code c \<and> code c \<le> 190)
     \<or> (192 \<le> code c \<and> code c \<le> 214) \<or> (216 \<le> code c \<and> code c \<le> 246)
     \<or> (248 \<le> code c \<and> code c \<le> 255))"

definition word_before :: "char option \<Rightarrow> bool" where
  "word_before prev = (case prev of None \<Rightarrow> False | Some p \<Rightarrow> is_word p)"

definition word_at :: "string \<Rightarrow> bool" where
  "word_at s = (case s of [] \<Rightarrow> False | c # _ \<Rightarrow> is_word c)"

text \<open>\<^verbatim>\<open>\bof ?the\b\<close> and its seven siblings, replaced by the two words in lower case.\<close>

definition the_phrase_match :: "string \<Rightarrow> char option \<Rightarrow> string \<Rightarrow> (string \<times> nat) option" where
  "the_phrase_match w prev s =
     (let r = drop (length w) s;
          gap = (if startswith r '' '' \<and> r \<noteq> [] then 1 else 0);
          r' = drop gap r
      in if \<not> word_before prev \<and> ieq (take (length w) s) w \<and> ieq (take 3 r') ''the''
            \<and> \<not> word_at (drop 3 r')
         then Some (w @ '' the'', length w + gap + 3) else None)"

text \<open>\<^verbatim>\<open>\bthe([A-Z])\<close> with the replacement \<^verbatim>\<open>the \1\<close>.\<close>

definition the_cap_match :: "char option \<Rightarrow> string \<Rightarrow> (string \<times> nat) option" where
  "the_cap_match prev s =
     (if \<not> word_before prev \<and> startswith s ''the'' \<and> length s > 3
         \<and> 65 \<le> code (s ! 3) \<and> code (s ! 3) \<le> 90
      then Some (''the '' @ [s ! 3], 4) else None)"

text \<open>\<^verbatim>\<open>re.sub(r'\s+', ' ', name)\<close>; the flag tells that the last character was whitespace.\<close>

fun collapse_ws :: "bool \<Rightarrow> string \<Rightarrow> string" where
  "collapse_ws in_run [] = []"
| "collapse_ws in_run (c # cs) =
     (if is_space c then (if in_run then collapse_ws True cs else CHR '' '' # collapse_ws True cs)
      else c # collapse_ws False cs)"

definition preposition_passes :: "string \<Rightarrow> string" where
  "preposition_passes name =
     (let name = sub_ctx (\<lambda>prev. cluster_match of_clusters ''of'') None name;
          name = sub_ctx (\<lambda>prev. sof_match) None name;
          name = sub_ctx (\<lambda>prev. cluster_match to_clusters ''to'') None name;
          name = sub_ctx (the_phrase_match ''of'') None name;
          name = sub_ctx (the_phrase_match ''to'') None name;
          name = sub_ctx (the_phrase_match ''at'') None name;
          name = sub_ctx (the_phrase_match ''in'') None name;
          name = sub_ctx (the_phrase_match ''for'') None name;
          name = sub_ctx (the_phrase_match ''from'') None name;
          name = sub_ctx (the_phrase_match ''on'') None name;
          name = sub_ctx (the_phrase_match ''and'') None name;
          name = sub_ctx the_cap_match None name
      in name)"

definition add_spaces_to_card_name :: "string \<Rightarrow> string" where
  "add_spaces_to_card_name name =
     (if name = [] then name
      else strip (collapse_ws False (preposition_passes
             (colon_pass (comma_pass (camel_walk None None name))))))"










section \<open>The line parser\<close>

text \<open>
  The record of one purchased line. Python's \<^verbatim>\<open>int\<close> is unbounded and is an \<^typ>\<open>int\<close>
  here. A price is the decimal number its token denotes, as a rational; \<^verbatim>\<open>float\<close> rounds
  that number to the nearest double, which the theory does not model.
\<close>

record card =
  quantity :: int
  set_name :: string
  card_name :: string
  collector_number :: string
  rarity :: char
  condition :: string
  is_foil :: bool
  price :: rat
  total_price :: rat
  variant :: "string option"
  language :: "string option"
  color :: string
  image_url :: "string option"

text \<open>\<^verbatim>\<open>sub in s\<close> and \<^verbatim>\<open>s.find(sub)\<close> are searches for a text that starts with \<^verbatim>\<open>sub\<close>.\<close>

definition find_sub :: "string \<Rightarrow> string \<Rightarrow> nat option" where
  "find_sub s sub = search (\<lambda>t. startswith t sub) s"

definition contains :: "string \<Rightarrow> string \<Rightarrow> bool" where
  "contains s sub = (find_sub s sub \<noteq> None)"

text \<open>\<^verbatim>\<open>int\<close> and \<^verbatim>\<open>float\<close> on the texts the patterns capture.\<close>

definition digit_value :: "char \<Rightarrow> nat" where
  "digit_value c = code c - 48"

definition int_of_digits :: "string \<Rightarrow> nat" where
  "int_of_digits ds = foldl (\<lambda>a c. 10 * a + digit_value c) 0 ds"

definition float_of_token :: "string \<Rightarrow> rat" where
  "float_of_token tok =
     (let whole = takeWhile is_digit tok;
          frac = drop (length whole + 1) tok
      in of_nat (int_of_digits whole) + of_nat (int_of_digits frac) / 10 ^ length frac)"

text \<open>
  The pattern \<^verbatim>\<open>\$(\d+\.?\d*)\<close> at the head of a text: the captured token and the length
  of the match. The runs of digits are greedy, and giving a character back never helps a
  pattern of the program to go on.
\<close>

definition price_at :: "string \<Rightarrow> (string \<times> nat) option" where
  "price_at s =
     (case s of
        [] \<Rightarrow> None
      | c # r \<Rightarrow>
          if c = CHR ''$'' \<and> takeWhile is_digit r \<noteq> [] then
            (let whole = takeWhile is_digit r;
                 r1 = dropWhile is_digit r;
                 tok = (if startswith r1 ''.'' \<and> r1 \<noteq> []
                        then whole @ ''.'' @ takeWhile is_digit (drop 1 r1) else whole)
             in Some (tok, 1 + length tok))
          else None)"

text \<open>\<^verbatim>\<open>re.findall\<close> for a pattern with one group: the captured texts, left to right.\<close>

function findall :: "(string \<Rightarrow> (string \<times> nat) option) \<Rightarrow> string \<Rightarrow> string list" where
  "findall m [] = []"
| "findall m (c # cs) =
     (case m (c # cs) of
        None \<Rightarrow> findall m cs
      | Some (tok, n) \<Rightarrow> tok # findall m (drop (n - 1) cs))"
  by pat_completeness auto
termination
  by (relation "measure (\<lambda>(m, s). length s)") auto

definition remove_prices :: "string \<Rightarrow> string" where
  "remove_prices s = sub_ctx (\<lambda>prev t. map_option (\<lambda>(tok, n). ([], n)) (price_at t)) None s"

text \<open>\<^verbatim>\<open>re.search(r'Magic-(.+)', s)\<close>: the dot matches every character but the newline.\<close>

definition at_magic :: "string \<Rightarrow> bool" where
  "at_magic t = (startswith t ''Magic-'' \<and> length t > 6 \<and> t ! 6 \<noteq> CHR 10)"

definition magic_group :: "string \<Rightarrow> string option" where
  "magic_group s =
     (case search at_magic s of
        None \<Rightarrow> None
      | Some k \<Rightarrow> Some (takeWhile (\<lambda>c. c \<noteq> CHR 10) (drop (k + 6) s)))"

text \<open>\<^verbatim>\<open>re.search(r'#(\d+)', remainder)\<close>.\<close>

definition at_number :: "string \<Rightarrow> bool" where
  "at_number t = (startswith t ''#'' \<and> takeWhile is_digit (drop 1 t) \<noteq> [])"

text \<open>
  The three patterns for the rarity. \<^verbatim>\<open>$\<close> in a pattern matches at the end of the text
  and before a newline that ends it.
\<close>

definition is_rarity :: "char \<Rightarrow> bool" where
  "is_rarity c = (c \<in> set ''MRUCS'')"

definition at_end :: "string \<Rightarrow> bool" where
  "at_end t = (t = [] \<or> t = [CHR 10])"

definition at_rarity_hyphen :: "string \<Rightarrow> bool" where
  "at_rarity_hyphen t =
     (length t \<ge> 3 \<and> t ! 0 = CHR ''-'' \<and> is_rarity (t ! 1) \<and> t ! 2 = CHR ''-'')"

definition rarity_followers :: "string list" where
  "rarity_followers = [''Near'', ''Lightly'', ''Moderately'', ''Heavily'', ''Foil'']"

definition at_rarity_end :: "string \<Rightarrow> bool" where
  "at_rarity_end t =
     (length t \<ge> 2 \<and> t ! 0 = CHR ''-'' \<and> is_rarity (t ! 1)
      \<and> (at_end (drop 2 t)
          \<or> list_ex (\<lambda>w. startswith (drop 2 t) w \<or> startswith (drop 2 t) (CHR ''-'' # w))
               rarity_followers))"

definition at_rarity_price :: "string \<Rightarrow> bool" where
  "at_rarity_price t =
     (case price_at t of
        None \<Rightarrow> False
      | Some (tok, n) \<Rightarrow> length t \<ge> n + 2 \<and> is_rarity (t ! n) \<and> t ! (n + 1) = CHR ''-'')"

text \<open>
  The rarity match: where it starts and the letter it captures. The third pattern is
  searched in the line, and its start is an index of the line.
\<close>

definition rarity_match :: "string \<Rightarrow> string \<Rightarrow> (nat \<times> char) option" where
  "rarity_match remainder line =
     (case search at_rarity_hyphen remainder of
        Some k \<Rightarrow> Some (k, remainder ! (k + 1))
      | None \<Rightarrow>
          (case search at_rarity_end remainder of
             Some k \<Rightarrow> Some (k, remainder ! (k + 1))
           | None \<Rightarrow>
               (case search at_rarity_price line of
                  Some k \<Rightarrow> Some (k, drop k line ! (snd (the (price_at (drop k line)))))
                | None \<Rightarrow> None)))"

text \<open>The condition, from the keywords in the line.\<close>

definition condition_of :: "string \<Rightarrow> string" where
  "condition_of line =
     (if contains line ''LightlyPlayed'' \<or> contains line ''Lightly Played'' then ''Lightly Played''
      else if contains line ''ModeratelyPlayed'' \<or> contains line ''Moderately Played''
        then ''Moderately Played''
      else if contains line ''HeavilyPlayed'' \<or> contains line ''Heavily Played''
        then ''Heavily Played''
      else ''Near Mint'')"

text \<open>
  The table of language patterns. A pattern \<^verbatim>\<open>[-\s]Word[-\s]|Word$\<close> is \<^verbatim>\<open>Bounded\<close>; the
  two patterns for Chinese are alternatives of two plain texts.
\<close>

datatype language_pattern = Bounded string | Either string string

definition language_patterns :: "(language_pattern \<times> string) list" where
  "language_patterns =
    [(Bounded ''Japanese'', ''Japanese''),
     (Bounded ''German'', ''German''),
     (Bounded ''French'', ''French''),
     (Bounded ''Italian'', ''Italian''),
     (Bounded ''Spanish'', ''Spanish''),
     (Bounded ''Portuguese'', ''Portuguese''),
     (Bounded ''Russian'', ''Russian''),
     (Bounded ''Korean'', ''Korean''),
     (Either ''ChineseSimplified'' ''SimplifiedChinese'', ''Chinese (Simplified)''),
     (Either ''ChineseTraditional'' ''TraditionalChinese'', ''Chinese (Traditional)''),
     (Bounded ''Phyrexian'', ''Phyrexian'')]"

definition is_bound :: "char \<Rightarrow> bool" where
  "is_bound c = (c = CHR ''-'' \<or> is_space c)"

definition at_bounded :: "string \<Rightarrow> string \<Rightarrow> bool" where
  "at_bounded w t =
     ((case t of
         [] \<Rightarrow> False
       | c # r \<Rightarrow> is_bound c \<and> startswith r w \<and> length r > length w \<and> is_bound (r ! length w))
      \<or> (startswith t w \<and> at_end (drop (length w) t)))"

fun pattern_found :: "language_pattern \<Rightarrow> string \<Rightarrow> bool" where
  "pattern_found (Bounded w) line = (search (at_bounded w) line \<noteq> None)"
| "pattern_found (Either u v) line =
     (search (\<lambda>t. startswith t u \<or> startswith t v) line \<noteq> None)"

fun first_language :: "(language_pattern \<times> string) list \<Rightarrow> string \<Rightarrow> string option" where
  "first_language [] line = None"
| "first_language ((pattern, lang_name) # rest) line =
     (if pattern_found pattern line then Some lang_name else first_language rest line)"

text \<open>\<^verbatim>\<open>str.rstrip('-')\<close>, and the pattern \<^verbatim>\<open>\(([^)]+)\)\<close> for the variant.\<close>

definition rstrip_hyphen :: "string \<Rightarrow> string" where
  "rstrip_hyphen s = rev (dropWhile (\<lambda>c. c = CHR ''-'') (rev s))"

definition at_variant :: "string \<Rightarrow> bool" where
  "at_variant t =
     (case t of
        [] \<Rightarrow> False
      | c # r \<Rightarrow> c = CHR ''('' \<and> takeWhile (\<lambda>x. x \<noteq> CHR '')'') r \<noteq> []
                 \<and> dropWhile (\<lambda>x. x \<noteq> CHR '')'') r \<noteq> [])"

text \<open>\<^verbatim>\<open>str.replace\<close>, and \<^verbatim>\<open>re.sub\<close> for a pattern that is a plain text.\<close>

definition replace_all :: "string \<Rightarrow> string \<Rightarrow> string \<Rightarrow> string" where
  "replace_all pat repl s =
     sub_ctx (\<lambda>prev t. if startswith t pat \<and> pat \<noteq> [] then Some (repl, length pat) else None) None s"

definition set_name_display_of :: "string \<Rightarrow> string" where
  "set_name_display_of name =
     (let d = add_spaces_to_card_name name;
          d = replace_all ''FINALFANTASY'' ''FINAL FANTASY'' d;
          d = replace_all ''Phyrexia:All Will Be One'' ''Phyrexia: All Will Be One'' d;
          d = replace_all ''Avatar:The Last Airbender'' ''Avatar: The Last Airbender'' d;
          d = replace_all ''Tarkir:Dragonstorm'' ''Tarkir: Dragonstorm'' d;
          d = replace_all ''Commander:'' ''Commander: '' d;
          d = replace_all ''Promo Pack:'' ''Promo Pack: '' d;
          d = replace_all ''From the Vault:'' ''From the Vault: '' d
      in collapse_ws False d)"

text \<open>
  The name part of the remainder: the text before the number, or before the rarity
  match, or the first part of the remainder.
\<close>

definition card_name_part_of ::
  "string \<Rightarrow> nat option \<Rightarrow> string \<Rightarrow> (nat \<times> char) option \<Rightarrow> string" where
  "card_name_part_of remainder number_match number rarity_m =
     (case number_match of
        Some k \<Rightarrow>
          (case find_sub remainder (CHR ''#'' # number) of
             Some num_pos \<Rightarrow> rstrip_hyphen (take num_pos remainder)
           | None \<Rightarrow> rstrip_hyphen (take (length remainder - 1) remainder))
      | None \<Rightarrow>
          (case rarity_m of
             Some (start, letter) \<Rightarrow> rstrip_hyphen (take start remainder)
           | None \<Rightarrow> hd (split_on CHR ''-'' remainder)))"

definition parse_card_line :: "string \<Rightarrow> card option" where
  "parse_card_line raw =
     (let line = strip raw in
      if \<not> is_entry_start line then None
      else if contains line ''Quantity'' \<or> contains line ''Description'' then None
      else if takeWhile is_digit line = [] \<or> takeWhile is_space (dropWhile is_digit line) = []
        then None
      else
        (let quantity' = int (int_of_digits (takeWhile is_digit line));
             prices = findall price_at line;
             price' = (if length prices \<ge> 2
                      then float_of_token (prices ! (length prices - 2)) else 0);
             total_price' = (if length prices \<ge> 2
                            then float_of_token (prices ! (length prices - 1)) else 0);
             line_no_prices = remove_prices line
         in case magic_group line_no_prices of
              None \<Rightarrow> None
            | Some g \<Rightarrow>
                (let full_description = strip g;
                     split = extract_set_and_card full_description;
                     set_name' = fst split;
                     remainder = snd split;
                     number_match = search at_number remainder;
                     collector_number' =
                       (case number_match of
                          None \<Rightarrow> []
                        | Some k \<Rightarrow> takeWhile is_digit (drop (k + 1) remainder));
                     rarity_m = rarity_match remainder line;
                     rarity' = (case rarity_m of None \<Rightarrow> CHR ''R'' | Some (start, letter) \<Rightarrow> letter);
                     is_foil' = contains line ''Foil'';
                     condition' = condition_of line;
                     language' = first_language language_patterns line;
                     card_name_part =
                       card_name_part_of remainder number_match collector_number' rarity_m;
                     variant_match = search at_variant card_name_part;
                     variant' =
                       (case variant_match of
                          None \<Rightarrow> None
                        | Some k \<Rightarrow>
                            Some (add_spaces_to_card_name
                                    (takeWhile (\<lambda>x. x \<noteq> CHR '')'') (drop (k + 1) card_name_part))));
                     card_name' =
                       (case variant_match of
                          None \<Rightarrow> card_name_part
                        | Some k \<Rightarrow> strip (take k card_name_part))
                 in Some \<lparr>quantity = quantity',
                          set_name = set_name_display_of set_name',
                          card_name = add_spaces_to_card_name card_name',
                          collector_number = collector_number',
                          rarity = rarity',
                          condition = condition',
                          is_foil = is_foil',
                          price = price',
                          total_price = total_price',
                          variant = variant',
                          language = language',
                          color = ''Colorless'',
                          image_url = None\<rparr>)))"

section \<open>The words of the specification about a line\<close>

text \<open>A text occurs in a line; a \<^verbatim>\<open>$\<close> or a \<^verbatim>\<open>#\<close> directly followed by a digit occurs in it.\<close>

definition has_text :: "string \<Rightarrow> string \<Rightarrow> bool" where
  "has_text s sub = (\<exists>pre post. s = pre @ sub @ post)"











section \<open>Properties of the continuation merger\<close>

lemma strip_Nil [simp]: "strip [] = []"
  by (simp add: strip_def rstrip_space_def)

lemma entry_start_nonempty: "is_entry_start s \<Longrightarrow> s \<noteq> []"
  by (auto simp: is_entry_start_def after_quantity_def)

lemma startswith_hd: "startswith s (c # p) \<Longrightarrow> s \<noteq> [] \<and> hd s = c"
  by (cases s) (auto simp: startswith_def)

lemma entry_start_not_total:
  assumes "is_entry_start s"
  shows "\<not> is_total_line s"
proof
  assume t: "is_total_line s"
  from assms obtain r where r: "after_quantity s = Some r" and m: "startswith r ''Magic-''"
    by (auto simp: is_entry_start_def split: option.splits)
  from t r have "startswith r ''Total''"
    by (simp add: is_total_line_def)
  then have "hd r = CHR ''T''" by (simp add: startswith_hd)
  moreover from m have "hd r = CHR ''M''" by (simp add: startswith_hd)
  ultimately show False by simp
qed

lemma digit_not_Q: "\<not> is_digit CHR ''Q''"
  by (simp add: is_digit_def code_def)

lemma digit_not_O: "\<not> is_digit CHR ''O''"
  by (simp add: is_digit_def code_def)

lemma entry_start_hd: "is_entry_start s \<Longrightarrow> is_digit (hd s)"
  by (cases s) (auto simp: is_entry_start_def after_quantity_def split: if_splits)

lemma entry_start_not_header:
  assumes "is_entry_start s"
  shows "\<not> startswith s ''Quantity Description''" and "\<not> startswith s ''OrderNumber:''"
proof -
  from assms have d: "is_digit (hd s)" and n: "s \<noteq> []"
    by (simp_all add: entry_start_hd entry_start_nonempty)
  show "\<not> startswith s ''Quantity Description''"
  proof
    assume "startswith s ''Quantity Description''"
    then have "hd s = CHR ''Q''" using n by (cases s) (auto simp: startswith_def)
    with d digit_not_Q show False by simp
  qed
  show "\<not> startswith s ''OrderNumber:''"
  proof
    assume "startswith s ''OrderNumber:''"
    then have "hd s = CHR ''O''" using n by (cases s) (auto simp: startswith_def)
    with d digit_not_O show False by simp
  qed
qed

lemma entry_start_not_noise: "is_entry_start s \<Longrightarrow> \<not> is_page_noise s"
  by (simp add: is_page_noise_def entry_start_not_header entry_start_not_total)

text \<open>
  The state of the loop against the specification: with an entry open, the entries still
  to come are the open one, extended by the continuation lines ahead, and then those of
  the remaining input.
\<close>

definition pending :: "string \<Rightarrow> string list \<Rightarrow> string list" where
  "pending current ls =
     (if current = [] then spec_entries ls
      else (current @ concat (takeWhile is_continuation ls))
             # spec_entries (dropWhile is_continuation ls))"

lemma pending_blank: "pending current ([] # ls) = pending current ls"
  by (simp add: pending_def is_continuation_def is_entry_start_def after_quantity_def
      is_page_noise_def is_total_line_def startswith_def)

lemma spec_entries_noise:
  assumes "is_page_noise l"
  shows "spec_entries (l # ls) = spec_entries ls"
proof -
  from assms entry_start_not_noise [of l] have "\<not> is_entry_start l" by blast
  then show ?thesis by simp
qed

lemma pending_Nil: "pending [] ls = spec_entries ls"
  by (simp add: pending_def)

lemma pending_noise:
  assumes "is_page_noise l"
  shows "pending current (l # ls) = flush ([], current) @ spec_entries ls"
proof -
  from assms have "\<not> is_continuation l" by (simp add: is_continuation_def)
  with assms show ?thesis
    by (simp add: pending_def flush_def spec_entries_noise del: spec_entries.simps)
qed

lemma spec_entries_dropWhile:
  "spec_entries (dropWhile is_continuation ls) = spec_entries ls"
  by (induction ls) (auto simp: is_continuation_def)

lemma pending_start:
  "is_entry_start l \<Longrightarrow> pending current (l # ls) = flush ([], current) @ pending l ls"
  by (simp add: pending_def flush_def is_continuation_def entry_start_nonempty
      entry_text_def spec_entries_dropWhile)

lemma pending_continuation:
  "is_continuation l \<Longrightarrow> current \<noteq> [] \<Longrightarrow> pending current (l # ls) = pending (current @ l) ls"
  by (simp add: pending_def)

lemma pending_dropped:
  "is_continuation l \<Longrightarrow> pending [] (l # ls) = pending [] ls"
  by (simp add: pending_def is_continuation_def)

lemma flush_append: "flush (merged, current) = merged @ flush ([], current)"
  by (simp add: flush_def)

lemma merge_loop_pending:
  "flush (foldl merge_step (merged, current) ls) = merged @ pending current (map strip ls)"
proof (induction ls arbitrary: merged current)
  case Nil
  show ?case by (simp add: flush_def pending_def)
next
  case (Cons raw ls)
  let ?line = "strip raw"
  consider (blank) "?line = []"
    | (noise) "?line \<noteq> []" "is_page_noise ?line"
    | (start) "?line \<noteq> []" "\<not> is_page_noise ?line" "is_entry_start ?line"
    | (cont) "?line \<noteq> []" "\<not> is_page_noise ?line" "\<not> is_entry_start ?line"
    by blast
  then show ?case
  proof cases
    case blank
    then have "merge_step (merged, current) raw = (merged, current)"
      by (simp add: merge_step_def)
    with blank Cons.IH [of merged current] show ?thesis
      by (simp add: pending_blank)
  next
    case noise
    then have "merge_step (merged, current) raw = (flush (merged, current), [])"
      by (auto simp: merge_step_def is_page_noise_def Let_def)
    with noise Cons.IH [of "flush (merged, current)" "[]"] show ?thesis
      by (simp add: pending_noise pending_Nil flush_append [of merged current])
  next
    case start
    then have "merge_step (merged, current) raw = (flush (merged, current), ?line)"
      by (auto simp: merge_step_def is_page_noise_def Let_def)
    with start Cons.IH [of "flush (merged, current)" ?line] show ?thesis
      by (simp add: pending_start flush_append [of merged current])
  next
    case cont
    then have c: "is_continuation ?line" by (simp add: is_continuation_def)
    show ?thesis
    proof (cases "current = []")
      case True
      with cont have "merge_step (merged, current) raw = (merged, current)"
        by (auto simp: merge_step_def is_page_noise_def Let_def)
      with True c Cons.IH [of merged current] show ?thesis
        by (simp add: pending_dropped)
    next
      case False
      with cont have "merge_step (merged, current) raw = (merged, current @ ?line)"
        by (auto simp: merge_step_def is_page_noise_def Let_def)
      with False c Cons.IH [of merged "current @ ?line"] show ?thesis
        by (simp add: pending_continuation)
    qed
  qed
qed

lemma length_spec_entries: "length (spec_entries ls) = length (filter is_entry_start ls)"
  by (induction ls) auto

text \<open>
  Claim C5. The merger returns exactly the entries of the specification: one entry for
  each entry-start line among the trimmed lines, in the order of the input, each the
  character-for-character concatenation of its start line and the lines that follow it
  up to the next entry-start line, noise line or end of input. The entry open when the
  input ends is part of the result.
\<close>

theorem merger_completeness:
  "merge_continuation_lines ls = spec_entries (map strip ls)
   \<and> length (merge_continuation_lines ls) = length (filter is_entry_start (map strip ls))"
  using merge_loop_pending [of "[]" "[]" ls]
  by (simp add: merge_continuation_lines_def pending_def length_spec_entries)

section \<open>Properties of the group/name splitter\<close>


lemma match_prefix_Some:
  "match_prefix ps d = Some (g, r) \<Longrightarrow> g \<in> set ps \<and> d = g @ ''-'' @ r"
proof (induction ps)
  case Nil
  then show ?case by simp
next
  case (Cons p ps)
  show ?case
  proof (cases "startswith d (p @ ''-'')")
    case True
    with Cons.prems have g: "g = p" and r: "r = drop (length p + 1) d" by auto
    from True have "take (length p + 1) d = p @ ''-''" by (simp add: startswith_def)
    then have "d = (p @ ''-'') @ drop (length p + 1) d"
      by (metis append_take_drop_id)
    with g r show ?thesis by simp
  next
    case False
    with Cons show ?thesis by simp
  qed
qed

lemma match_prefix_None:
  "match_prefix ps d = None \<Longrightarrow> p \<in> set ps \<Longrightarrow> \<not> startswith d (p @ ''-'')"
  by (induction ps) (auto split: if_splits)

lemma startswith_iff: "startswith s p = (\<exists>r. s = p @ r)"
  by (metis append_eq_conv_conj startswith_def)

lemma set_sorted_prefixes: "set sorted_prefixes = set KNOWN_SET_PREFIXES"
  by (simp add: sorted_prefixes_def)

lemma match_prefix_known:
  "(match_prefix sorted_prefixes d = None) = (\<not> has_known_prefix d)"
proof
  assume n: "match_prefix sorted_prefixes d = None"
  show "\<not> has_known_prefix d"
  proof
    assume "has_known_prefix d"
    then obtain p r where p: "p \<in> set KNOWN_SET_PREFIXES" and d: "d = p @ ''-'' @ r"
      by (auto simp: has_known_prefix_def)
    from d have "startswith d (p @ ''-'')" by (simp add: startswith_iff)
    with match_prefix_None [OF n, of p] p show False by (simp add: set_sorted_prefixes)
  qed
next
  assume h: "\<not> has_known_prefix d"
  show "match_prefix sorted_prefixes d = None"
  proof (cases "match_prefix sorted_prefixes d")
    case None
    then show ?thesis .
  next
    case (Some gr)
    obtain g r where "gr = (g, r)" by (cases gr)
    with Some match_prefix_Some [of sorted_prefixes d g r]
    have "g \<in> set KNOWN_SET_PREFIXES" and "d = g @ ''-'' @ r"
      by (simp_all add: set_sorted_prefixes)
    with h show ?thesis by (auto simp: has_known_prefix_def)
  qed
qed

lemma search_Some:
  "search P s = Some k \<Longrightarrow> k \<le> length s \<and> P (drop k s) \<and> (\<forall>j<k. \<not> P (drop j s))"
proof (induction s arbitrary: k)
  case Nil
  then show ?case by (simp split: if_splits)
next
  case (Cons c cs)
  show ?case
  proof (cases "P (c # cs)")
    case True
    with Cons.prems show ?thesis by simp
  next
    case False
    with Cons.prems obtain k' where k': "search P cs = Some k'" and k: "k = Suc k'"
      by auto
    from Cons.IH [OF k'] have ih: "k' \<le> length cs" "P (drop k' cs)" "\<forall>j<k'. \<not> P (drop j cs)"
      by simp_all
    have "\<not> P (drop j (c # cs))" if "j < k" for j
      using that False ih(3) k by (cases j) auto
    with ih k show ?thesis by simp
  qed
qed

lemma search_None: "search P s = None \<Longrightarrow> \<not> P (drop j s)"
proof (induction s arbitrary: j)
  case Nil
  then show ?case by (simp split: if_splits)
next
  case (Cons c cs)
  then show ?case by (cases j) (auto split: if_splits)
qed

lemma search_None_iff: "(search P s = None) = (\<forall>j. \<not> P (drop j s))"
proof
  assume "search P s = None"
  then show "\<forall>j. \<not> P (drop j s)" by (simp add: search_None)
next
  assume a: "\<forall>j. \<not> P (drop j s)"
  show "search P s = None"
  proof (cases "search P s")
    case None then show ?thesis .
  next
    case (Some k)
    from search_Some [OF Some] a show ?thesis by blast
  qed
qed

lemma at_anchor_iff: "at_anchor s = (\<exists>d post. is_digit d \<and> s = ''-#'' @ d # post)"
proof
  assume a: "at_anchor s"
  then obtain r where r: "s = ''-#'' @ r" by (auto simp: at_anchor_def startswith_iff)
  with a have "takeWhile is_digit r \<noteq> []" by (simp add: at_anchor_def)
  then obtain d post where "r = d # post" "is_digit d"
    by (cases r) (auto split: if_splits)
  with r show "\<exists>d post. is_digit d \<and> s = ''-#'' @ d # post" by blast
next
  assume "\<exists>d post. is_digit d \<and> s = ''-#'' @ d # post"
  then show "at_anchor s" by (auto simp: at_anchor_def startswith_def)
qed

lemma search_anchor: "(search at_anchor s = None) = (\<not> has_anchor s)"
proof -
  have "has_anchor s = (\<exists>j. at_anchor (drop j s))"
  proof
    assume "has_anchor s"
    then obtain pre d post where "is_digit d" "s = pre @ ''-#'' @ d # post"
      by (auto simp: has_anchor_def)
    then have "at_anchor (drop (length pre) s)" by (auto simp: at_anchor_iff)
    then show "\<exists>j. at_anchor (drop j s)" ..
  next
    assume "\<exists>j. at_anchor (drop j s)"
    then obtain j d post where d: "is_digit d" and j: "drop j s = ''-#'' @ d # post"
      by (auto simp: at_anchor_iff)
    have "s = take j s @ drop j s" by simp
    with j have "s = take j s @ ''-#'' @ d # post" by simp
    with d show "has_anchor s" unfolding has_anchor_def by blast
  qed
  then show ?thesis by (simp add: search_None_iff)
qed

lemma split_on_nonempty: "split_on sep s \<noteq> []"
  by (induction s) auto

lemma join_Cons: "ps \<noteq> [] \<Longrightarrow> join sep (p # ps) = p @ sep @ join sep ps"
  by (cases ps) auto

lemma join_split_on: "join [sep] (split_on sep s) = s"
proof (induction s)
  case Nil
  show ?case by simp
next
  case (Cons c cs)
  obtain p ps where ps: "split_on sep cs = p # ps"
    using split_on_nonempty [of sep cs] by (cases "split_on sep cs") auto
  show ?case
  proof (cases "c = sep")
    case True
    with Cons show ?thesis by (simp add: join_Cons split_on_nonempty)
  next
    case False
    with Cons ps show ?thesis by (cases ps) auto
  qed
qed

lemma join_append:
  "xs \<noteq> [] \<Longrightarrow> ys \<noteq> [] \<Longrightarrow> join sep (xs @ ys) = join sep xs @ sep @ join sep ys"
proof (induction xs)
  case Nil
  then show ?case by simp
next
  case (Cons x xs)
  then show ?case by (cases xs) (auto simp: join_Cons)
qed

lemma walk_found: "walk j True parts = ([], parts)"
  by (induction parts arbitrary: j) auto

lemma walk_append: "fst (walk j f parts) @ snd (walk j f parts) = parts"
proof (induction parts arbitrary: j f)
  case Nil
  show ?case by simp
next
  case (Cons p ps)
  then show ?case by (cases f) (auto simp: walk_found)
qed

lemma anchor_split_Some:
  assumes "anchor_split d = Some (g, r)"
  shows "d = g @ ''-'' @ r"
proof -
  from assms obtain k where k: "search at_anchor d = Some k"
    by (auto simp: anchor_split_def split: option.splits)
  let ?parts = "split_on CHR ''-'' (take k d)"
  let ?sp = "fst (walk 0 False ?parts)"
  let ?cp = "snd (walk 0 False ?parts)"
  from assms k have ne: "?sp \<noteq> []" "?cp \<noteq> []"
    and g: "g = join ''-'' ?sp" and r: "r = join ''-'' ?cp @ drop k d"
    by (auto simp: anchor_split_def Let_def split: if_splits)
  have "join ''-'' ?sp @ ''-'' @ join ''-'' ?cp = join ''-'' (?sp @ ?cp)"
    using ne by (simp add: join_append)
  also have "\<dots> = take k d" by (simp add: walk_append join_split_on)
  finally have "take k d = g @ ''-'' @ join ''-'' ?cp" using g by simp
  then have "take k d @ drop k d = (g @ ''-'' @ join ''-'' ?cp) @ drop k d" by simp
  then have "d = (g @ ''-'' @ join ''-'' ?cp) @ drop k d" by (simp only: append_take_drop_id)
  with r show ?thesis by simp
qed

lemma find_char_Some:
  "find_char x s = Some k \<Longrightarrow> k < length s \<and> s ! k = x \<and> x \<notin> set (take k s)"
proof (induction s arbitrary: k)
  case Nil
  then show ?case by simp
next
  case (Cons c cs)
  then show ?case by (cases "c = x") auto
qed

lemma find_char_None: "(find_char x s = None) = (x \<notin> set s)"
  by (induction s) auto

lemma find_char_takeWhile:
  "find_char x s = Some k \<Longrightarrow> takeWhile (\<lambda>c. c \<noteq> x) s = take k s \<and> dropWhile (\<lambda>c. c \<noteq> x) s = drop k s"
proof (induction s arbitrary: k)
  case Nil
  then show ?case by simp
next
  case (Cons c cs)
  then show ?case by (cases "c = x") auto
qed

lemma first_hyphen_split_naive: "first_hyphen_split d = naive_result d"
proof (cases "find_char CHR ''-'' d")
  case None
  then have "CHR ''-'' \<notin> set d" by (simp add: find_char_None)
  with None show ?thesis
    by (simp add: first_hyphen_split_def naive_result_def)
next
  case (Some k)
  from find_char_Some [OF Some] have i: "CHR ''-'' \<in> set d" and kl: "k < length d"
    by (auto simp: in_set_conv_nth)
  from find_char_takeWhile [OF Some]
  have t: "before_hyphen d = take k d" and a: "after_hyphen d = drop (Suc k) d"
    by (simp_all add: before_hyphen_def after_hyphen_def)
  show ?thesis
  proof (cases "k > 0")
    case True
    with kl have "take k d \<noteq> []" by (cases d) auto
    with Some True i t a show ?thesis
      by (simp add: first_hyphen_split_def naive_result_def)
  next
    case False
    then have "take k d = []" by simp
    with Some False i t show ?thesis
      by (simp add: first_hyphen_split_def naive_result_def)
  qed
qed

lemma naive_result_shape:
  "(fst (naive_result d) = ''Unknown'' \<and> snd (naive_result d) = d)
   \<or> d = fst (naive_result d) @ ''-'' @ snd (naive_result d)"
proof (cases "CHR ''-'' \<in> set d \<and> before_hyphen d \<noteq> []")
  case False
  then show ?thesis by (auto simp: naive_result_def)
next
  case True
  then have "dropWhile (\<lambda>c. c \<noteq> CHR ''-'') d \<noteq> []" by simp
  then obtain r where r: "dropWhile (\<lambda>c. c \<noteq> CHR ''-'') d = CHR ''-'' # r"
    using hd_dropWhile [of "\<lambda>c. c \<noteq> CHR ''-''" d]
    by (cases "dropWhile (\<lambda>c. c \<noteq> CHR ''-'') d") auto
  have "d = takeWhile (\<lambda>c. c \<noteq> CHR ''-'') d @ dropWhile (\<lambda>c. c \<noteq> CHR ''-'') d" by simp
  with r have "d = before_hyphen d @ ''-'' @ after_hyphen d"
    by (simp add: before_hyphen_def after_hyphen_def)
  with True show ?thesis by (simp add: naive_result_def)
qed


lemma walk_no_card:
  "list_all (\<lambda>p. \<not> looks_like_card p) ps \<Longrightarrow> walk j False ps = (ps, [])"
  by (induction ps arbitrary: j) (auto simp: starts_card_def)

lemma walk_first_no_card:
  "list_all (\<lambda>p. \<not> looks_like_card p) (tl ps) \<Longrightarrow> walk 0 False ps = (ps, [])"
  by (cases ps) (auto simp: starts_card_def walk_no_card)

lemma anchor_split_no_card:
  assumes "search at_anchor d = Some k"
    and "list_all (\<lambda>p. \<not> looks_like_card p) (tl (split_on CHR ''-'' (take k d)))"
  shows "anchor_split d = None"
  using assms by (simp add: anchor_split_def Let_def walk_first_no_card)



lemma has_anchor_hyphen: "has_anchor d \<Longrightarrow> CHR ''-'' \<in> set d"
  by (auto simp: has_anchor_def)

lemma extract_shape:
  "(fst (extract_set_and_card d) = ''Unknown'' \<and> snd (extract_set_and_card d) = d)
   \<or> d = fst (extract_set_and_card d) @ ''-'' @ snd (extract_set_and_card d)"
proof (cases "match_prefix sorted_prefixes d")
  case (Some gr)
  then have e: "extract_set_and_card d = gr" by (simp add: extract_set_and_card_def)
  from Some match_prefix_Some [of sorted_prefixes d "fst gr" "snd gr"]
  have "d = fst gr @ ''-'' @ snd gr" by simp
  with e show ?thesis by simp
next
  case None
  show ?thesis
  proof (cases "anchor_split d")
    case (Some gr)
    with None have e: "extract_set_and_card d = gr" by (simp add: extract_set_and_card_def)
    from Some anchor_split_Some [of d "fst gr" "snd gr"]
    have "d = fst gr @ ''-'' @ snd gr" by simp
    with e show ?thesis by simp
  next
    case n: None
    with None have "extract_set_and_card d = naive_result d"
      by (simp add: extract_set_and_card_def first_hyphen_split_naive)
    with naive_result_shape [of d] show ?thesis by simp
  qed
qed

text \<open>
  Claim C7, as the code has it. The pair the splitter returns either is the sentinel
  group \<^verbatim>\<open>Unknown\<close> with the whole input as remainder, or rebuilds the input when the group
  and the remainder are put together again around the one hyphen the split consumed.
\<close>

theorem split_result_invariant:
  "(fst (extract_set_and_card d) = ''Unknown'' \<and> snd (extract_set_and_card d) = d)
   \<or> d = fst (extract_set_and_card d) @ ''-'' @ snd (extract_set_and_card d)"
  by (rule extract_shape)

theorem split_result_witness:
  "(fst (extract_set_and_card ''Foundations-Opt-#12'') = ''Unknown''
      \<and> snd (extract_set_and_card ''Foundations-Opt-#12'') = ''Foundations-Opt-#12'')
   \<or> ''Foundations-Opt-#12'' = fst (extract_set_and_card ''Foundations-Opt-#12'') @ ''-''
        @ snd (extract_set_and_card ''Foundations-Opt-#12'')"
  by (rule split_result_invariant)

text \<open>
  The input \<^verbatim>\<open>abc\<close> has no hyphen: the group is the sentinel, which is no part of the
  input, so neither concatenation gives the input back.
\<close>

theorem split_result_counterexample:
  "fst (extract_set_and_card ''abc'') @ snd (extract_set_and_card ''abc'') \<noteq> ''abc''
   \<and> fst (extract_set_and_card ''abc'') @ ''-'' @ snd (extract_set_and_card ''abc'') \<noteq> ''abc''"
  by code_simp




text \<open>
  On an input with an anchor the walk can give an empty group: the first part is exempt
  from the test, and an empty first part is a group of its own.
\<close>

lemma splitter_empty_group: "extract_set_and_card ''-Card-#12'' = ([], ''Card-#12'')"
  by code_simp

text \<open>
  Claim C3, as the code has it. When the text has an anchor, starts with no known group,
  and no part before the anchor, the first one apart, is a non-empty part that starts with
  an uppercase letter and with none of the set words, the walk leaves the name side empty
  and the anchor fallback is given up: the splitter splits at the first hyphen of the
  text, or returns \<^verbatim>\<open>Unknown\<close> and the whole text when nothing precedes that hyphen.
\<close>

theorem anchor_walk_fallthrough:
  assumes "\<not> has_known_prefix d"
    and "search at_anchor d = Some k"
    and "list_all (\<lambda>p. \<not> looks_like_card p) (tl (split_on CHR ''-'' (take k d)))"
  shows "extract_set_and_card d =
           (if before_hyphen d \<noteq> [] then (before_hyphen d, after_hyphen d) else (''Unknown'', d))"
proof -
  from assms(2) search_anchor [of d] have "has_anchor d" by simp
  then have h: "CHR ''-'' \<in> set d" by (rule has_anchor_hyphen)
  from assms(1) have "match_prefix sorted_prefixes d = None"
    by (simp add: match_prefix_known)
  with assms(2,3) have "extract_set_and_card d = naive_result d"
    by (simp add: extract_set_and_card_def anchor_split_no_card first_hyphen_split_naive)
  with h show ?thesis by (simp add: naive_result_def)
qed

text \<open>
  In \<^verbatim>\<open>abc-def-#12\<close> the parts before the anchor are \<^verbatim>\<open>abc\<close> and \<^verbatim>\<open>def\<close>; the walk
  finds no start of a name, and the group is \<^verbatim>\<open>abc\<close> alone.
\<close>

theorem anchor_walk_counterexample:
  "\<not> has_known_prefix ''abc-def-#12'' \<and> search at_anchor ''abc-def-#12'' = Some 7
   \<and> split_on CHR ''-'' (take 7 ''abc-def-#12'') = [''abc'', ''def'']
   \<and> \<not> looks_like_card ''abc'' \<and> \<not> looks_like_card ''def''
   \<and> fst (extract_set_and_card ''abc-def-#12'') = ''abc''"
proof -
  have p: "match_prefix sorted_prefixes ''abc-def-#12'' = None" by code_simp
  have r: "search at_anchor ''abc-def-#12'' = Some 7
   \<and> split_on CHR ''-'' (take 7 ''abc-def-#12'') = [''abc'', ''def'']
   \<and> \<not> looks_like_card ''abc'' \<and> \<not> looks_like_card ''def''
   \<and> fst (extract_set_and_card ''abc-def-#12'') = ''abc''" by code_simp
  from p have "\<not> has_known_prefix ''abc-def-#12''"
    by (simp only: match_prefix_known [symmetric])
  with r show ?thesis by blast
qed

theorem anchor_walk_witness:
  "\<not> has_known_prefix ''set-promo-#5-R'' \<and> search at_anchor ''set-promo-#5-R'' = Some 9
   \<and> list_all (\<lambda>p. \<not> looks_like_card p) (tl (split_on CHR ''-'' (take 9 ''set-promo-#5-R'')))
   \<and> extract_set_and_card ''set-promo-#5-R'' = (''set'', ''promo-#5-R'')"
proof -
  have p: "match_prefix sorted_prefixes ''set-promo-#5-R'' = None" by code_simp
  then have h: "\<not> has_known_prefix ''set-promo-#5-R''"
    by (simp only: match_prefix_known [symmetric])
  have k: "search at_anchor ''set-promo-#5-R'' = Some 9" by code_simp
  have w: "list_all (\<lambda>p. \<not> looks_like_card p) (tl (split_on CHR ''-'' (take 9 ''set-promo-#5-R'')))"
    by code_simp
  have b: "before_hyphen ''set-promo-#5-R'' = ''set''" "after_hyphen ''set-promo-#5-R'' = ''promo-#5-R''"
    by (simp_all add: before_hyphen_def after_hyphen_def)
  from anchor_walk_fallthrough [OF h k w] b h k w show ?thesis by simp
qed

section \<open>Properties of the line parser\<close>

lemma contains_has_text: "contains s sub = has_text s sub"
proof -
  have "(\<exists>j. startswith (drop j s) sub) = has_text s sub"
  proof
    assume "\<exists>j. startswith (drop j s) sub"
    then obtain j r where "drop j s = sub @ r" by (auto simp: startswith_iff)
    then have "s = take j s @ sub @ r" by (metis append_take_drop_id)
    then show "has_text s sub" unfolding has_text_def by blast
  next
    assume "has_text s sub"
    then obtain pre post where "s = pre @ sub @ post" by (auto simp: has_text_def)
    then have "startswith (drop (length pre) s) sub" by (simp add: startswith_iff)
    then show "\<exists>j. startswith (drop j s) sub" ..
  qed
  then show ?thesis by (simp add: contains_def find_sub_def search_None_iff)
qed

lemma dropWhile_keeps_text:
  assumes "s = pre @ sub @ post" and "sub \<noteq> []" and "\<not> P (hd sub)"
  shows "\<exists>pre'. dropWhile P s = pre' @ sub @ post"
proof (cases "\<forall>x\<in>set pre. P x")
  case True
  with assms have "dropWhile P s = sub @ post"
    by (cases sub) (simp_all add: dropWhile_append)
  then show ?thesis by simp
next
  case False
  with assms have "dropWhile P s = dropWhile P pre @ sub @ post"
    by (auto simp: dropWhile_append)
  then show ?thesis by blast
qed

lemma rstrip_keeps_text:
  assumes "s = pre @ sub @ post" and "sub \<noteq> []" and "\<not> is_space (last sub)"
  shows "\<exists>post'. rstrip_space s = pre @ sub @ post'"
proof -
  from assms have r: "rev s = rev post @ rev sub @ rev pre" by simp
  from assms have "rev sub \<noteq> []" "\<not> is_space (hd (rev sub))" by (simp_all add: hd_rev)
  with r dropWhile_keeps_text [of "rev s" "rev post" "rev sub" "rev pre" is_space]
  obtain q where "dropWhile is_space (rev s) = q @ rev sub @ rev pre" by blast
  then have "rstrip_space s = pre @ sub @ rev q" by (simp add: rstrip_space_def)
  then show ?thesis by blast
qed

lemma strip_keeps_text:
  assumes "has_text s sub" and "sub \<noteq> []" and "\<not> is_space (hd sub)" and "\<not> is_space (last sub)"
  shows "has_text (strip s) sub"
proof -
  from assms(1) obtain pre post where "s = pre @ sub @ post" by (auto simp: has_text_def)
  with assms(2,3) dropWhile_keeps_text [of s pre sub post is_space]
  obtain pre' where "dropWhile is_space s = pre' @ sub @ post" by blast
  with assms(2,4) rstrip_keeps_text [of "dropWhile is_space s" pre' sub post]
  show ?thesis by (auto simp: strip_def has_text_def)
qed

text \<open>
  Claim C10. A line whose text holds \<^verbatim>\<open>Quantity\<close> or \<^verbatim>\<open>Description\<close> anywhere gives no
  record, whether or not it has the shape of an entry start.
\<close>

theorem header_words_rejected:
  assumes "has_text line ''Quantity'' \<or> has_text line ''Description''"
  shows "parse_card_line line = None"
proof -
  have q: "has_text (strip line) ''Quantity''" if "has_text line ''Quantity''"
    using that by (rule strip_keeps_text) (simp_all add: is_space_def code_def)
  have d: "has_text (strip line) ''Description''" if "has_text line ''Description''"
    using that by (rule strip_keeps_text) (simp_all add: is_space_def code_def)
  from assms q d
  have "contains (strip line) ''Quantity'' \<or> contains (strip line) ''Description''"
    by (auto simp: contains_has_text)
  then show ?thesis by (simp add: parse_card_line_def Let_def)
qed

theorem header_words_rejected_witness:
  "has_text ''2 Magic-Quantity-#1-R'' ''Quantity'' \<and> is_entry_start ''2 Magic-Quantity-#1-R''
   \<and> parse_card_line ''2 Magic-Quantity-#1-R'' = None"
proof -
  have "''2 Magic-Quantity-#1-R'' = ''2 Magic-'' @ ''Quantity'' @ ''-#1-R''" by simp
  then have h: "has_text ''2 Magic-Quantity-#1-R'' ''Quantity''"
    unfolding has_text_def by blast
  have e: "is_entry_start ''2 Magic-Quantity-#1-R''" by code_simp
  from h have "has_text ''2 Magic-Quantity-#1-R'' ''Quantity'' \<or> has_text ''2 Magic-Quantity-#1-R'' ''Description''" ..
  from header_words_rejected [OF this] h e show ?thesis by simp
qed

text \<open>
  Claim C6. The merged entry of scenario A is parsed into a record with quantity 4, a
  group name that holds \<^verbatim>\<open>Foundations\<close>, identifier \<^verbatim>\<open>123\<close>, tier \<^verbatim>\<open>R\<close>, no foil,
  condition near mint, unit price 0.50 and total price 2.00.
\<close>

theorem scenario_a:
  "(case parse_card_line ''4 Magic-Foundations-SomeName-#123-R-NearMint $0.50 $2.00'' of
      None \<Rightarrow> False
    | Some c \<Rightarrow> quantity c = 4 \<and> contains (set_name c) ''Foundations''
        \<and> collector_number c = ''123'' \<and> rarity c = CHR ''R'' \<and> is_foil c = False
        \<and> condition c = ''Near Mint'' \<and> price c = 1 / 2 \<and> total_price c = 2)"
  by code_simp

theorem scenario_a_witness:
  "\<exists>c. parse_card_line ''4 Magic-Foundations-SomeName-#123-R-NearMint $0.50 $2.00'' = Some c
     \<and> quantity c = 4 \<and> collector_number c = ''123'' \<and> rarity c = CHR ''R''
     \<and> price c = 1 / 2 \<and> total_price c = 2"
  using scenario_a
  by (cases "parse_card_line ''4 Magic-Foundations-SomeName-#123-R-NearMint $0.50 $2.00''")
    simp_all











section \<open>Properties of the language tag\<close>















section \<open>Sparse entries and the defaults of the fields\<close>



































section \<open>Properties of the name normalizer\<close>

subsection \<open>Character facts\<close>
















subsection \<open>The passes keep a relation that is blind to spaces\<close>


















subsection \<open>No preposition repair on a plain name\<close>


















subsection \<open>Fixed points of the single passes\<close>











subsection \<open>What each pass establishes\<close>
















subsection \<open>The later passes keep what the camel-case walk established\<close>














subsection \<open>The spacing passes on their own output\<close>

















end
